theory Spec2Isabelle
  imports Main "HOL-Library.Sublist" "HOL-Library.Monad_Syntax"
begin

section \<open>Data model\<close>

text \<open>
  A hunk as the \<^verbatim>\<open>diff\<close> package hands it to \<^verbatim>\<open>patch-utils.js\<close>: the four header
  numbers and the body lines. The numbers are JavaScript numbers holding line numbers
  and line counts; they are modelled as unbounded integers (double arithmetic is exact
  on integers far beyond any line number).
\<close>

record hunk =
  oldStart :: int
  oldLines :: int
  newStart :: int
  newLines :: int
  lines :: "string list"

text \<open>
  One element of the array \<^verbatim>\<open>parsePatch\<close> returns. The code reads only its
  \<^verbatim>\<open>hunks\<close> property and tests it for being missing, hence the option.
\<close>

record parsedDiff =
  hunks :: "hunk list option"

text \<open>
  A file of a change set (\<^verbatim>\<open>getFilesBetweenCommits\<close>): \<^verbatim>\<open>patch\<close> is a string or
  missing. A review comment: \<^verbatim>\<open>body\<close> is a string or missing.
\<close>

record changedFile =
  filename :: string
  patch :: "string option"

record comment =
  body :: "string option"

text \<open>
  Exceptions as values. \<open>MalformedPatch\<close> is what the parser raises, \<open>FetchFailure\<close>
  what a call of the host API raises, \<open>TypeError\<close> what JavaScript raises on a method
  call on \<^verbatim>\<open>undefined\<close>.
\<close>

datatype error = MalformedPatch | FetchFailure | TypeError

section \<open>JavaScript strings and arrays\<close>

text \<open>
  A string is a list of code units (\<^typ>\<open>char\<close>, so code units below 256).
  \<open>isFalsy\<close> is \<^verbatim>\<open>!x\<close> on a value that is a string, \<^verbatim>\<open>null\<close> or \<^verbatim>\<open>undefined\<close>.
\<close>

definition isFalsy :: "string option \<Rightarrow> bool" where
  "isFalsy x = (case x of None \<Rightarrow> True | Some s \<Rightarrow> s = [])"

text \<open>\<^verbatim>\<open>Array.prototype.join\<close> on an array of strings.\<close>

fun join :: "string \<Rightarrow> string list \<Rightarrow> string" where
  "join sep [] = []"
| "join sep [x] = x"
| "join sep (x # y # ys) = x @ sep @ join sep (y # ys)"

text \<open>
  \<^verbatim>\<open>String.prototype.split\<close> with a string separator: \<open>splitOn\<close> is the case of a
  non-empty separator, and the empty separator splits into code units.
\<close>

function splitOn :: "string \<Rightarrow> string \<Rightarrow> string list" where
  "splitOn sep [] = [[]]"
| "splitOn sep (c # cs) =
     (if sep \<noteq> [] \<and> prefix sep (c # cs)
      then [] # splitOn sep (drop (length sep) (c # cs))
      else (case splitOn sep cs of
              [] \<Rightarrow> [[c]]
            | p # ps \<Rightarrow> (c # p) # ps))"
  by pat_completeness auto
termination
  by (relation "measure (\<lambda>(sep, s). length s)") auto

definition splitJS :: "string \<Rightarrow> string \<Rightarrow> string list" where
  "splitJS sep s = (if sep = [] then map (\<lambda>c. [c]) s else splitOn sep s)"

text \<open>
  \<^verbatim>\<open>s.replace(pat, rep)\<close> with a string pattern: the first occurrence only
  (\<open>rep\<close> without \<^verbatim>\<open>$\<close>; the code passes the empty string).
\<close>

fun replaceFirst :: "string \<Rightarrow> string \<Rightarrow> string \<Rightarrow> string" where
  "replaceFirst pat rep [] = (if pat = [] then rep else [])"
| "replaceFirst pat rep (c # cs) =
     (if prefix pat (c # cs) then rep @ drop (length pat) (c # cs)
      else c # replaceFirst pat rep cs)"

text \<open>
  \<^verbatim>\<open>String.prototype.trim\<close>: the white space and line terminators below code unit 256.
\<close>

definition isSpaceJS :: "char \<Rightarrow> bool" where
  "isSpaceJS c = (c \<in> {CHR 0x09, CHR 0x0A, CHR 0x0B, CHR 0x0C, CHR 0x0D, CHR 0x20, CHR 0xA0})"

definition trimJS :: "string \<Rightarrow> string" where
  "trimJS s = rev (dropWhile isSpaceJS (rev (dropWhile isSpaceJS s)))"

text \<open>A number in a template literal: an integer prints in decimal.\<close>

definition digitChar :: "nat \<Rightarrow> char" where
  "digitChar n = char_of (48 + n)"

function showNat :: "nat \<Rightarrow> string" where
  "showNat n = (if n < 10 then [digitChar n] else showNat (n div 10) @ [digitChar (n mod 10)])"
  by pat_completeness auto
termination
  by (relation "measure id") auto

declare showNat.simps [simp del]

definition showInt :: "int \<Rightarrow> string" where
  "showInt i = (if i < 0 then CHR ''-'' # showNat (nat (- i)) else showNat (nat i))"

section \<open>Overlap predicate\<close>

text \<open>
  \<^verbatim>\<open>hunksOverlap(hunk1, hunk2)\<close>: the debug log is the only effect and is left out.
\<close>

definition hunksOverlap :: "hunk \<Rightarrow> hunk \<Rightarrow> bool" where
  "hunksOverlap hunk1 hunk2 =
     (let h1Start = newStart hunk1;
          h1End = newStart hunk1 + newLines hunk1 - 1;
          h2Start = newStart hunk2;
          h2End = newStart hunk2 + newLines hunk2 - 1
      in h1Start \<le> h2End \<and> h2Start \<le> h1End)"

section \<open>Patch reconstructor\<close>

definition hunkHeader :: "hunk \<Rightarrow> string" where
  "hunkHeader h =
     ''@@ -'' @ showInt (oldStart h) @ '','' @ showInt (oldLines h) @
     '' +'' @ showInt (newStart h) @ '','' @ showInt (newLines h) @ '' @@''"

definition reconstructPatch :: "hunk list \<Rightarrow> string" where
  "reconstructPatch hs = join ''\<newline>'' (map (\<lambda>h. join ''\<newline>'' (hunkHeader h # lines h)) hs)"

section \<open>Hunk reconciler\<close>

text \<open>
  \<^verbatim>\<open>parsePatch\<close> comes from the \<^verbatim>\<open>diff\<close> package, so \<open>filterPatchHunks\<close> takes it as
  the parameter \<open>parse\<close>: it gets the patch value (a string or \<^verbatim>\<open>null\<close>) and returns
  the array of parsed diffs or raises. \<open>noHunks ps\<close> is the test
  \<^verbatim>\<open>!ps[0] || !ps[0].hunks || ps[0].hunks.length === 0\<close>, and \<open>firstHunks ps\<close> reads
  \<^verbatim>\<open>ps[0].hunks\<close> after that test has failed.
\<close>

type_synonym parser = "string option \<Rightarrow> error + parsedDiff list"

definition noHunks :: "parsedDiff list \<Rightarrow> bool" where
  "noHunks ps =
     (case ps of
        [] \<Rightarrow> True
      | p # _ \<Rightarrow> (case hunks p of None \<Rightarrow> True | Some hs \<Rightarrow> length hs = 0))"

definition firstHunks :: "parsedDiff list \<Rightarrow> hunk list" where
  "firstHunks ps =
     (case ps of
        [] \<Rightarrow> []
      | p # _ \<Rightarrow> (case hunks p of None \<Rightarrow> [] | Some hs \<Rightarrow> hs))"

definition filterPatchHunks :: "parser \<Rightarrow> string option \<Rightarrow> string option \<Rightarrow> error + string option" where
  "filterPatchHunks parse incrementalPatch wholePRPatch =
     (if isFalsy incrementalPatch then Inr None
      else
        (case parse incrementalPatch of
           Inl e \<Rightarrow> Inl e
         | Inr incrementalPatches \<Rightarrow>
        (case parse wholePRPatch of
           Inl e \<Rightarrow> Inl e
         | Inr wholePRPatches \<Rightarrow>
             if noHunks incrementalPatches then Inr incrementalPatch
             else if noHunks wholePRPatches then Inr None
             else
               (let incrementalHunks = firstHunks incrementalPatches;
                    wholePRHunks = firstHunks wholePRPatches;
                    filteredHunks =
                      filter (\<lambda>incHunk. list_ex (\<lambda>prHunk. hunksOverlap incHunk prHunk) wholePRHunks)
                        incrementalHunks
                in if length filteredHunks = 0 then Inr None
                   else Inr (Some (reconstructPatch filteredHunks))))))"

section \<open>File-level orchestrator\<close>

text \<open>
  The host API of one run: \<^verbatim>\<open>listPRComments\<close> and \<^verbatim>\<open>getFilesBetweenCommits\<close>
  (of a base and a head commit), each returning its value or raising.
\<close>

record githubAPI =
  listPRComments :: "error + comment list"
  getFilesBetweenCommits :: "string \<Rightarrow> string \<Rightarrow> error + changedFile list"

text \<open>
  What \<^verbatim>\<open>input-processor.js\<close> imports and is not under the sources: the two constants
  of \<^verbatim>\<open>./constants\<close>, \<^verbatim>\<open>parsePatch\<close> of the \<^verbatim>\<open>diff\<close> package (through
  \<^verbatim>\<open>./patch-utils\<close>) and \<^verbatim>\<open>path.posix.extname\<close>.
\<close>

record externals =
  AI_REVIEW_COMMENT_PREFIX :: string
  SUMMARY_SEPARATOR :: string
  parsePatchFn :: parser
  extname :: "string \<Rightarrow> string"

text \<open>The fields of an \<^verbatim>\<open>InputProcessor\<close> that \<^verbatim>\<open>_processChangedFiles\<close> reads.\<close>

record inputProcessor =
  api :: githubAPI
  baseCommit :: string
  headCommit :: string
  includeExtensions :: string
  excludeExtensions :: string
  includePaths :: string
  excludePaths :: string

text \<open>\<^verbatim>\<open>xs.map(f)\<close> where \<open>f\<close> may raise: the first exception ends the loop.\<close>

fun mapRaising :: "('a \<Rightarrow> error + 'b) \<Rightarrow> 'a list \<Rightarrow> error + 'b list" where
  "mapRaising f [] = Inr []"
| "mapRaising f (x # xs) =
     (case f x of
        Inl e \<Rightarrow> Inl e
      | Inr y \<Rightarrow> (case mapRaising f xs of Inl e \<Rightarrow> Inl e | Inr ys \<Rightarrow> Inr (y # ys)))"

text \<open>
  \<^verbatim>\<open>new Map(wholePRFiles.map((f) => [f.filename, f]))\<close>: a later entry of the same
  name replaces an earlier one.
\<close>

definition wholePRFileMap :: "changedFile list \<Rightarrow> (string \<rightharpoonup> changedFile)" where
  "wholePRFileMap wholePRFiles = foldl (\<lambda>m f. m(filename f \<mapsto> f)) Map.empty wholePRFiles"

text \<open>
  The callback of \<^verbatim>\<open>changedFiles.map\<close> in \<^verbatim>\<open>_excludeMergeOnlyChanges\<close>: \<open>None\<close> is
  its \<^verbatim>\<open>null\<close>.
\<close>

definition excludeFile :: "parser \<Rightarrow> (string \<rightharpoonup> changedFile) \<Rightarrow> changedFile \<Rightarrow> error + changedFile option" where
  "excludeFile parse fileMap incFile =
     (case fileMap (filename incFile) of
        None \<Rightarrow> Inr None
      | Some prFile \<Rightarrow>
          (case filterPatchHunks parse (patch incFile) (patch prFile) of
             Inl e \<Rightarrow> Inl e
           | Inr filteredPatch \<Rightarrow>
               if isFalsy filteredPatch then Inr None
               else Inr (Some (incFile\<lparr>patch := filteredPatch\<rparr>))))"

definition excludeMergeOnlyChanges ::
    "externals \<Rightarrow> inputProcessor \<Rightarrow> changedFile list \<Rightarrow> string \<Rightarrow> error + changedFile list" where
  "excludeMergeOnlyChanges im this changedFiles originalPRBase =
     (case getFilesBetweenCommits (api this) originalPRBase (headCommit this) of
        Inl e \<Rightarrow> Inl e
      | Inr wholePRFiles \<Rightarrow>
          (case mapRaising (excludeFile (parsePatchFn im) (wholePRFileMap wholePRFiles)) changedFiles of
             Inl e \<Rightarrow> Inl e
           | Inr mapped \<Rightarrow> Inr (List.map_filter (\<lambda>f. f) mapped)))"

text \<open>\<^verbatim>\<open>_filterChangedFiles\<close>, the extension and path filter.\<close>

definition toArray :: "string \<Rightarrow> string list" where
  "toArray str = (if str = [] then [] else filter (\<lambda>s. s \<noteq> []) (map trimJS (splitJS '','' str)))"

definition shouldReview ::
    "externals \<Rightarrow> string list \<Rightarrow> string list \<Rightarrow> string list \<Rightarrow> string list \<Rightarrow> changedFile \<Rightarrow> bool" where
  "shouldReview im incExt excExt incPath excPath file =
     (let filePath = map (\<lambda>c. if c = CHR 0x5C then CHR ''/'' else c) (filename file);
          ext = extname im filePath;
          extAllowed = (length incExt = 0 \<or> List.member incExt ext);
          extExcluded = List.member excExt ext;
          inAllowedPath = (length incPath = 0 \<or> list_ex (\<lambda>p. prefix p filePath) incPath);
          inExcludedPath = list_ex (\<lambda>p. prefix p filePath) excPath
      in extAllowed \<and> \<not> extExcluded \<and> inAllowedPath \<and> \<not> inExcludedPath)"

definition filterChangedFiles ::
    "externals \<Rightarrow> changedFile list \<Rightarrow> string \<Rightarrow> string \<Rightarrow> string \<Rightarrow> string \<Rightarrow> changedFile list" where
  "filterChangedFiles im changedFiles includeExts excludeExts includePs excludePs =
     filter (shouldReview im (toArray includeExts) (toArray excludeExts)
               (toArray includePs) (toArray excludePs)) changedFiles"

text \<open>
  \<^verbatim>\<open>_processChangedFiles\<close>, in two parts. \<open>lastReviewComment\<close> is the newest comment
  whose body starts with the prefix; \<open>newBaseCommit\<close> is the token read from it
  (\<^verbatim>\<open>[0]\<close> of an empty array is \<^verbatim>\<open>undefined\<close>, and the next method call raises);
  \<open>incrementalBaseCommit\<close> is the base commit the diff is taken from.
\<close>

definition lastReviewComment :: "externals \<Rightarrow> comment list \<Rightarrow> comment option" where
  "lastReviewComment im comments =
     List.find (\<lambda>c. case body c of
                      None \<Rightarrow> False
                    | Some b \<Rightarrow> b \<noteq> [] \<and> prefix (AI_REVIEW_COMMENT_PREFIX im) b)
       (rev comments)"

definition newBaseCommit :: "externals \<Rightarrow> string \<Rightarrow> error + string" where
  "newBaseCommit im b =
     (case splitJS (SUMMARY_SEPARATOR im) b of
        [] \<Rightarrow> Inl TypeError
      | beforeSeparator # _ \<Rightarrow>
          (case splitJS '' '' (replaceFirst (AI_REVIEW_COMMENT_PREFIX im) [] beforeSeparator) of
             [] \<Rightarrow> Inl TypeError
           | token # _ \<Rightarrow> Inr (trimJS token)))"

definition incrementalBaseCommit :: "externals \<Rightarrow> inputProcessor \<Rightarrow> comment list \<Rightarrow> error + string" where
  "incrementalBaseCommit im this comments =
     (case lastReviewComment im comments of
        None \<Rightarrow> Inr (baseCommit this)
      | Some c \<Rightarrow>
          (case body c of
             None \<Rightarrow> Inl TypeError
           | Some b \<Rightarrow>
               (case newBaseCommit im b of
                  Inl e \<Rightarrow> Inl e
                | Inr t \<Rightarrow> if t \<noteq> [] then Inr t else Inr (baseCommit this))))"

definition processChangedFiles :: "externals \<Rightarrow> inputProcessor \<Rightarrow> error + changedFile list" where
  "processChangedFiles im this =
     (let originalPRBase = baseCommit this in
      case listPRComments (api this) of
        Inl e \<Rightarrow> Inl e
      | Inr comments \<Rightarrow>
      (case incrementalBaseCommit im this comments of
        Inl e \<Rightarrow> Inl e
      | Inr incBase \<Rightarrow>
      (case getFilesBetweenCommits (api this) incBase (headCommit this) of
        Inl e \<Rightarrow> Inl e
      | Inr changedFiles \<Rightarrow>
      (case (if incBase \<noteq> originalPRBase
             then excludeMergeOnlyChanges im this changedFiles originalPRBase
             else Inr changedFiles) of
        Inl e \<Rightarrow> Inl e
      | Inr changedFiles' \<Rightarrow>
          Inr (filterChangedFiles im changedFiles'
                 (includeExtensions this) (excludeExtensions this)
                 (includePaths this) (excludePaths this))))))"

section \<open>Hunk parser\<close>

text \<open>
  \<^verbatim>\<open>parsePatch\<close> is imported from the \<^verbatim>\<open>diff\<close> package and no source of it is in the
  repository, so the definitions of this section are written from the spec's sections
  4.1 and 6: a null or empty input yields an empty hunk list; the text of one file is a
  sequence of hunks, each a header line \<^verbatim>\<open>@@ -oldStart,oldLines +newStart,newLines @@\<close>
  followed by its body lines, which are prefixed \<^verbatim>\<open>+\<close>, \<^verbatim>\<open>-\<close> or a space and are kept
  verbatim; a header that does not match the line-range syntax fails with
  \<open>MalformedPatch\<close>. The spec does not say what separates the file sections of a text
  of several files, and file headers are stripped by the caller: the text of one file
  section is what is modelled.
\<close>

text \<open>
  Modelled from the spec: the numbers of a header (\<^verbatim>\<open>parsePatch\<close> is missing). A number
  is a non-empty run of decimal digits; \<open>readNumber\<close> returns it with the rest of the
  line.
\<close>

definition isDigit :: "char \<Rightarrow> bool" where
  "isDigit c = (c \<in> set ''0123456789'')"

definition digitVal :: "char \<Rightarrow> nat" where
  "digitVal c = of_char c - 48"

definition readNat :: "string \<Rightarrow> nat" where
  "readNat ds = foldl (\<lambda>a c. 10 * a + digitVal c) 0 ds"

definition readNumber :: "string \<Rightarrow> (int \<times> string) option" where
  "readNumber s =
     (let ds = takeWhile isDigit s
      in if ds = [] then None else Some (int (readNat ds), dropWhile isDigit s))"

text \<open>
  Modelled from the spec: the header line of a hunk (\<^verbatim>\<open>parsePatch\<close> is missing), which
  is \<^verbatim>\<open>@@ -oldStart,oldLines +newStart,newLines @@\<close> and nothing else; \<open>None\<close> is a
  line that does not match.
\<close>

definition stripPrefix :: "string \<Rightarrow> string \<Rightarrow> string option" where
  "stripPrefix p s = (if prefix p s then Some (drop (length p) s) else None)"

definition parseHeader :: "string \<Rightarrow> (int \<times> int \<times> int \<times> int) option" where
  "parseHeader l =
     do {
       r1 \<leftarrow> stripPrefix ''@@ -'' l;
       (os, r2) \<leftarrow> readNumber r1;
       r3 \<leftarrow> stripPrefix '','' r2;
       (ol, r4) \<leftarrow> readNumber r3;
       r5 \<leftarrow> stripPrefix '' +'' r4;
       (ns, r6) \<leftarrow> readNumber r5;
       r7 \<leftarrow> stripPrefix '','' r6;
       (nl, r8) \<leftarrow> readNumber r7;
       if r8 = '' @@'' then Some (os, ol, ns, nl) else None
     }"

text \<open>
  Modelled from the spec: the body lines of a hunk (\<^verbatim>\<open>parsePatch\<close> is missing), which
  are the lines prefixed \<^verbatim>\<open>+\<close>, \<^verbatim>\<open>-\<close> or a space.
\<close>

definition isBodyLine :: "string \<Rightarrow> bool" where
  "isBodyLine l =
     (case l of
        [] \<Rightarrow> False
      | c # _ \<Rightarrow> c = CHR ''+'' \<or> c = CHR ''-'' \<or> c = CHR '' '')"

text \<open>
  Modelled from the spec: the hunks of the lines of one file section (\<^verbatim>\<open>parsePatch\<close>
  is missing). Each hunk is a header and the body lines that follow it, kept verbatim.
  A line that is no body line stands where a header is expected, so it is read as a
  header, and fails with \<open>MalformedPatch\<close> when it does not match.
\<close>

function parseHunks :: "string list \<Rightarrow> error + hunk list" where
  "parseHunks [] = Inr []"
| "parseHunks (l # ls) =
     (case parseHeader l of
        None \<Rightarrow> Inl MalformedPatch
      | Some (os, ol, ns, nl) \<Rightarrow>
          (case parseHunks (dropWhile isBodyLine ls) of
             Inl e \<Rightarrow> Inl e
           | Inr hs \<Rightarrow>
               Inr (\<lparr>oldStart = os, oldLines = ol, newStart = ns, newLines = nl,
                      lines = takeWhile isBodyLine ls\<rparr> # hs)))"
  by pat_completeness auto
termination
  by (relation "measure length") (auto simp: length_dropWhile_le le_imp_less_Suc)

text \<open>
  Modelled from the spec: \<^verbatim>\<open>parsePatch\<close> of the \<^verbatim>\<open>diff\<close> package, which is missing
  from the sources. A null or empty input yields one parsed diff with an empty hunk
  list; any other text is cut into lines and read as the hunks of one file.
\<close>

definition parsePatch :: parser where
  "parsePatch patchText =
     (case patchText of
        None \<Rightarrow> Inr [\<lparr>hunks = Some []\<rparr>]
      | Some text \<Rightarrow>
          if text = [] then Inr [\<lparr>hunks = Some []\<rparr>]
          else
            (case parseHunks (splitJS ''\<newline>'' text) of
               Inl e \<Rightarrow> Inl e
             | Inr hs \<Rightarrow> Inr [\<lparr>hunks = Some hs\<rparr>]))"

section \<open>Properties of the overlap predicate\<close>

text \<open>
  C5. For every pair of hunks a and b, the overlap predicate is true if and only if
  aStart <= bEnd and bStart <= aEnd, where aStart = a.newStart and
  aEnd = a.newStart + a.newLines - 1 (symmetrically for b). Only the new-file range
  enters, and the same inequality decides every pair, hunks with newLines = 0 included:
  the statement has no side condition, and changing the old-file range or the body of
  either hunk does not change the answer.
\<close>

theorem hunksOverlap_closed_interval_test:
  "hunksOverlap a b =
     (newStart a \<le> newStart b + newLines b - 1 \<and> newStart b \<le> newStart a + newLines a - 1)
   \<and> hunksOverlap (a\<lparr>oldStart := os, oldLines := ol, lines := ls\<rparr>) b = hunksOverlap a b
   \<and> hunksOverlap a (b\<lparr>oldStart := os, oldLines := ol, lines := ls\<rparr>) = hunksOverlap a b"
  by (simp add: hunksOverlap_def)

theorem hunksOverlap_closed_interval_test_witness:
  "hunksOverlap
     \<lparr>oldStart = 1, oldLines = 0, newStart = 5, newLines = 0, lines = []\<rparr>
     \<lparr>oldStart = 3, oldLines = 4, newStart = 3, newLines = 4, lines = []\<rparr>
   \<and> \<not> hunksOverlap
     \<lparr>oldStart = 10, oldLines = 6, newStart = 10, newLines = 6, lines = []\<rparr>
     \<lparr>oldStart = 20, oldLines = 6, newStart = 20, newLines = 6, lines = []\<rparr>"
  using hunksOverlap_closed_interval_test
          [of "\<lparr>oldStart = 1, oldLines = 0, newStart = 5, newLines = 0, lines = []\<rparr>"
              "\<lparr>oldStart = 3, oldLines = 4, newStart = 3, newLines = 4, lines = []\<rparr>"]
        hunksOverlap_closed_interval_test
          [of "\<lparr>oldStart = 10, oldLines = 6, newStart = 10, newLines = 6, lines = []\<rparr>"
              "\<lparr>oldStart = 20, oldLines = 6, newStart = 20, newLines = 6, lines = []\<rparr>"]
  by simp

text \<open>
  C9. For every pair of hunks a and b, overlaps(a,b) equals overlaps(b,a).
\<close>

theorem hunksOverlap_symmetric:
  "hunksOverlap a b = hunksOverlap b a"
  by (auto simp: hunksOverlap_def)

theorem hunksOverlap_symmetric_witness:
  "hunksOverlap
     \<lparr>oldStart = 46, oldLines = 1, newStart = 50, newLines = 6, lines = [''+c'']\<rparr>
     \<lparr>oldStart = 40, oldLines = 9, newStart = 44, newLines = 7, lines = []\<rparr>
   = hunksOverlap
     \<lparr>oldStart = 40, oldLines = 9, newStart = 44, newLines = 7, lines = []\<rparr>
     \<lparr>oldStart = 46, oldLines = 1, newStart = 50, newLines = 6, lines = [''+c'']\<rparr>"
  by (rule hunksOverlap_symmetric)

text \<open>
  C4, as the claim states it, fails in its second half. The hunk a is a pure deletion at
  new-file line 5 (newLines = 0) and the range of b is lines 5 to 7, which includes the
  point 5; yet the two do not overlap, because the end of a is 4.
\<close>

theorem hunksOverlap_boundary_counterexample:
  "newLines \<lparr>oldStart = 5, oldLines = 1, newStart = 5, newLines = 0, lines = [''-x'']\<rparr> = 0
   \<and> newStart \<lparr>oldStart = 5, oldLines = 2, newStart = 5, newLines = 3, lines = ['' a'', ''+b'', '' c'']\<rparr>
       \<le> newStart \<lparr>oldStart = 5, oldLines = 1, newStart = 5, newLines = 0, lines = [''-x'']\<rparr>
   \<and> newStart \<lparr>oldStart = 5, oldLines = 1, newStart = 5, newLines = 0, lines = [''-x'']\<rparr>
       \<le> newStart \<lparr>oldStart = 5, oldLines = 2, newStart = 5, newLines = 3, lines = ['' a'', ''+b'', '' c'']\<rparr>
           + newLines \<lparr>oldStart = 5, oldLines = 2, newStart = 5, newLines = 3, lines = ['' a'', ''+b'', '' c'']\<rparr> - 1
   \<and> \<not> hunksOverlap
         \<lparr>oldStart = 5, oldLines = 1, newStart = 5, newLines = 0, lines = [''-x'']\<rparr>
         \<lparr>oldStart = 5, oldLines = 2, newStart = 5, newLines = 3, lines = ['' a'', ''+b'', '' c'']\<rparr>"
  by (simp add: hunksOverlap_def)

text \<open>
  C4, amended. For every hunk a with a.newLines >= 1, overlaps(a,a) is true; and for
  every hunk a with a.newLines = 0, overlaps(a,b) is true exactly when
  b.newStart < a.newStart <= b.newStart + b.newLines - 1, that is when the new-file range
  of b includes both the line a.newStart and the line before it.
\<close>

theorem hunksOverlap_reflexive_and_boundary:
  "(1 \<le> newLines a \<longrightarrow> hunksOverlap a a)
   \<and> (newLines a = 0 \<longrightarrow>
        hunksOverlap a b = (newStart b < newStart a \<and> newStart a \<le> newStart b + newLines b - 1))"
  by (auto simp: hunksOverlap_def)

theorem hunksOverlap_reflexive_and_boundary_witness:
  "hunksOverlap \<lparr>oldStart = 3, oldLines = 2, newStart = 3, newLines = 4, lines = []\<rparr>
                \<lparr>oldStart = 3, oldLines = 2, newStart = 3, newLines = 4, lines = []\<rparr>
   \<and> hunksOverlap \<lparr>oldStart = 5, oldLines = 1, newStart = 5, newLines = 0, lines = [''-x'']\<rparr>
                  \<lparr>oldStart = 3, oldLines = 2, newStart = 3, newLines = 4, lines = []\<rparr>"
  using hunksOverlap_reflexive_and_boundary
          [of "\<lparr>oldStart = 3, oldLines = 2, newStart = 3, newLines = 4, lines = []\<rparr>" b for b]
        hunksOverlap_reflexive_and_boundary
          [of "\<lparr>oldStart = 5, oldLines = 1, newStart = 5, newLines = 0, lines = [''-x'']\<rparr>"
              "\<lparr>oldStart = 3, oldLines = 2, newStart = 3, newLines = 4, lines = []\<rparr>"]
  by simp

section \<open>Properties of the hunk reconciler\<close>

text \<open>
  C1, as the claim states it, fails. For an incremental patch that is the empty string
  or null, \<open>filterPatchHunks\<close> returns null, not the incremental patch, and the
  per-file step of \<open>_excludeMergeOnlyChanges\<close> drops the file.
\<close>

theorem filterPatchHunks_empty_incremental_counterexample:
  "filterPatchHunks parsePatch (Some '''') (Some ''@@ -1,1 +1,1 @@\<newline>-a\<newline>+b'') = Inr None
   \<and> filterPatchHunks parsePatch None (Some ''@@ -1,1 +1,1 @@\<newline>-a\<newline>+b'') = Inr None
   \<and> excludeFile parsePatch
         (wholePRFileMap [\<lparr>filename = ''a.js'', patch = Some ''@@ -1,1 +1,1 @@\<newline>-a\<newline>+b''\<rparr>])
         \<lparr>filename = ''a.js'', patch = Some ''''\<rparr> = Inr None"
  by (simp add: filterPatchHunks_def excludeFile_def wholePRFileMap_def isFalsy_def)

text \<open>
  C1, amended. For every file whose incremental patch is empty or null, the reconciler
  (\<open>filterPatchHunks\<close>) returns null, whatever the parser and the whole-PR patch are,
  and the per-file step of \<open>_excludeMergeOnlyChanges\<close> yields null for the file, so
  the file is excluded.
\<close>

theorem filterPatchHunks_empty_incremental:
  "isFalsy (patch incFile) \<Longrightarrow>
     filterPatchHunks parse (patch incFile) wholePRPatch = Inr None
     \<and> excludeFile parse fileMap incFile = Inr None"
  by (simp add: filterPatchHunks_def excludeFile_def isFalsy_def split: option.splits)

theorem filterPatchHunks_empty_incremental_witness:
  "isFalsy (patch \<lparr>filename = ''a.js'', patch = Some ''''\<rparr>)
   \<and> filterPatchHunks parsePatch (patch \<lparr>filename = ''a.js'', patch = Some ''''\<rparr>)
         (Some ''@@ -1,1 +1,1 @@\<newline>-a\<newline>+b'') = Inr None
   \<and> excludeFile parsePatch
         (wholePRFileMap [\<lparr>filename = ''a.js'', patch = Some ''@@ -1,1 +1,1 @@\<newline>-a\<newline>+b''\<rparr>])
         \<lparr>filename = ''a.js'', patch = Some ''''\<rparr> = Inr None"
proof -
  have h: "isFalsy (patch \<lparr>filename = ''a.js'', patch = Some ''''\<rparr>)"
    by (simp add: isFalsy_def)
  show ?thesis
    using h filterPatchHunks_empty_incremental [OF h] by simp
qed

text \<open>
  C3. For every incremental patch and reference patch that each parse to at least one
  hunk, the result of the reconciler is the patch reconstructed from exactly those
  incremental hunks that overlap at least one reference hunk, in their original order
  (a filter of the incremental hunk list: nothing is reordered, nothing is removed as a
  duplicate); if no incremental hunk overlaps any reference hunk the result is null.
  The parser is any parser that finds no hunk in a null or empty text.
\<close>

theorem filterPatchHunks_keeps_overlapping_hunks:
  assumes "\<And>ps. parse None = Inr ps \<Longrightarrow> noHunks ps"
    and "\<And>ps. parse (Some []) = Inr ps \<Longrightarrow> noHunks ps"
    and "parse incrementalPatch = Inr incs" and "\<not> noHunks incs"
    and "parse wholePRPatch = Inr refs" and "\<not> noHunks refs"
  shows "filterPatchHunks parse incrementalPatch wholePRPatch =
           (if filter (\<lambda>h. \<exists>r \<in> set (firstHunks refs). hunksOverlap h r) (firstHunks incs) = []
            then Inr None
            else Inr (Some (reconstructPatch
                   (filter (\<lambda>h. \<exists>r \<in> set (firstHunks refs). hunksOverlap h r) (firstHunks incs)))))"
proof -
  have "\<not> isFalsy incrementalPatch"
  proof (cases incrementalPatch)
    case None
    with assms(1,3,4) show ?thesis by auto
  next
    case (Some t)
    with assms(2,3,4) show ?thesis by (auto simp: isFalsy_def)
  qed
  then show ?thesis
    using assms(3-6) by (simp add: filterPatchHunks_def list_ex_iff)
qed

theorem filterPatchHunks_keeps_overlapping_hunks_witness:
  "filterPatchHunks parsePatch
     (Some ''@@ -10,2 +10,6 @@\<newline> a\<newline>+b\<newline>@@ -46,1 +50,6 @@\<newline>+c\<newline>@@ -96,3 +100,6 @@\<newline>-d'')
     (Some ''@@ -20,1 +20,6 @@\<newline>+x\<newline>@@ -46,1 +50,6 @@\<newline>+c'')
   = Inr (Some ''@@ -46,1 +50,6 @@\<newline>+c'')"
proof -
  have e1: "\<And>ps. parsePatch None = Inr ps \<Longrightarrow> noHunks ps"
    by (auto simp: parsePatch_def noHunks_def)
  have e2: "\<And>ps. parsePatch (Some []) = Inr ps \<Longrightarrow> noHunks ps"
    by (auto simp: parsePatch_def noHunks_def)
  have i: "parsePatch (Some ''@@ -10,2 +10,6 @@\<newline> a\<newline>+b\<newline>@@ -46,1 +50,6 @@\<newline>+c\<newline>@@ -96,3 +100,6 @@\<newline>-d'') =
     Inr [\<lparr>hunks = Some
       [\<lparr>oldStart = 10, oldLines = 2, newStart = 10, newLines = 6, lines = ['' a'', ''+b'']\<rparr>,
        \<lparr>oldStart = 46, oldLines = 1, newStart = 50, newLines = 6, lines = [''+c'']\<rparr>,
        \<lparr>oldStart = 96, oldLines = 3, newStart = 100, newLines = 6, lines = [''-d'']\<rparr>]\<rparr>]"
    by code_simp
  have r: "parsePatch (Some ''@@ -20,1 +20,6 @@\<newline>+x\<newline>@@ -46,1 +50,6 @@\<newline>+c'') =
     Inr [\<lparr>hunks = Some
       [\<lparr>oldStart = 20, oldLines = 1, newStart = 20, newLines = 6, lines = [''+x'']\<rparr>,
        \<lparr>oldStart = 46, oldLines = 1, newStart = 50, newLines = 6, lines = [''+c'']\<rparr>]\<rparr>]"
    by code_simp
  have ni: "\<not> noHunks [\<lparr>hunks = Some
       [\<lparr>oldStart = 10, oldLines = 2, newStart = 10, newLines = 6, lines = ['' a'', ''+b'']\<rparr>,
        \<lparr>oldStart = 46, oldLines = 1, newStart = 50, newLines = 6, lines = [''+c'']\<rparr>,
        \<lparr>oldStart = 96, oldLines = 3, newStart = 100, newLines = 6, lines = [''-d'']\<rparr>]\<rparr>]"
    by (simp add: noHunks_def)
  have nr: "\<not> noHunks [\<lparr>hunks = Some
       [\<lparr>oldStart = 20, oldLines = 1, newStart = 20, newLines = 6, lines = [''+x'']\<rparr>,
        \<lparr>oldStart = 46, oldLines = 1, newStart = 50, newLines = 6, lines = [''+c'']\<rparr>]\<rparr>]"
    by (simp add: noHunks_def)
  have rc: "reconstructPatch [\<lparr>oldStart = 46, oldLines = 1, newStart = 50, newLines = 6, lines = [''+c'']\<rparr>]
      = ''@@ -46,1 +50,6 @@\<newline>+c''"
    by code_simp
  show ?thesis
    using filterPatchHunks_keeps_overlapping_hunks [OF e1 e2 i ni r nr] rc
    by (simp add: firstHunks_def hunksOverlap_def)
qed

text \<open>
  C6. For every file whose reference (whole-PR) patch parses to zero hunks while its
  incremental patch parses to at least one hunk, the reconciler returns null; and the
  per-file step of \<open>_excludeMergeOnlyChanges\<close> gives the file the same outcome as when
  the whole-PR change set has no entry for it.
\<close>

theorem filterPatchHunks_zero_hunk_reference:
  assumes "parse (patch incFile) = Inr incs" and "\<not> noHunks incs"
    and "parse (patch prFile) = Inr refs" and "noHunks refs"
  shows "filterPatchHunks parse (patch incFile) (patch prFile) = Inr None
         \<and> excludeFile parse (fileMap(filename incFile \<mapsto> prFile)) incFile
             = excludeFile parse (fileMap(filename incFile := None)) incFile"
  using assms by (simp add: filterPatchHunks_def excludeFile_def isFalsy_def)

theorem filterPatchHunks_zero_hunk_reference_witness:
  "filterPatchHunks parsePatch
     (patch \<lparr>filename = ''legacy.js'', patch = Some ''@@ -1,1 +1,2 @@\<newline> a\<newline>+b''\<rparr>)
     (patch \<lparr>filename = ''legacy.js'', patch = Some ''''\<rparr>) = Inr None
   \<and> excludeFile parsePatch
        (Map.empty(filename \<lparr>filename = ''legacy.js'', patch = Some ''@@ -1,1 +1,2 @@\<newline> a\<newline>+b''\<rparr>
            \<mapsto> \<lparr>filename = ''legacy.js'', patch = Some ''''\<rparr>))
        \<lparr>filename = ''legacy.js'', patch = Some ''@@ -1,1 +1,2 @@\<newline> a\<newline>+b''\<rparr>
      = excludeFile parsePatch
        (Map.empty(filename \<lparr>filename = ''legacy.js'', patch = Some ''@@ -1,1 +1,2 @@\<newline> a\<newline>+b''\<rparr>
            := None))
        \<lparr>filename = ''legacy.js'', patch = Some ''@@ -1,1 +1,2 @@\<newline> a\<newline>+b''\<rparr>"
proof -
  have i: "parsePatch (patch \<lparr>filename = ''legacy.js'', patch = Some ''@@ -1,1 +1,2 @@\<newline> a\<newline>+b''\<rparr>) =
     Inr [\<lparr>hunks = Some
       [\<lparr>oldStart = 1, oldLines = 1, newStart = 1, newLines = 2, lines = ['' a'', ''+b'']\<rparr>]\<rparr>]"
    by code_simp
  have ni: "\<not> noHunks [\<lparr>hunks = Some
       [\<lparr>oldStart = 1, oldLines = 1, newStart = 1, newLines = 2, lines = ['' a'', ''+b'']\<rparr>]\<rparr>]"
    by (simp add: noHunks_def)
  have r: "parsePatch (patch \<lparr>filename = ''legacy.js'', patch = Some ''''\<rparr>) = Inr [\<lparr>hunks = Some []\<rparr>]"
    by (simp add: parsePatch_def)
  have nr: "noHunks [\<lparr>hunks = Some []\<rparr>]"
    by (simp add: noHunks_def)
  show ?thesis
    by (rule filterPatchHunks_zero_hunk_reference [OF i ni r nr])
qed

section \<open>Properties of the file-level orchestrator\<close>

lemma mapRaising_raises:
  "x \<in> set xs \<Longrightarrow> f x = Inl e \<Longrightarrow> \<exists>e'. mapRaising f xs = Inl e'"
  by (induction xs) (auto split: sum.splits)

lemma filterPatchHunks_raises:
  "\<not> isFalsy inc \<Longrightarrow> parse inc = Inl e \<or> parse w = Inl e \<Longrightarrow>
     \<exists>e'. filterPatchHunks parse inc w = Inl e'"
  by (auto simp: filterPatchHunks_def split: sum.splits)

text \<open>
  C2, as the claim states it, fails. In an incremental run over two files, the patch of
  \<^verbatim>\<open>bad.js\<close> has a header that does not match the line-range syntax, followed by
  two added lines; the parser raises, nothing catches the exception, and the run ends
  with it instead of a file list: \<^verbatim>\<open>good.js\<close> is not reconciled. The other patches
  are well formed, with line counts that agree with their bodies.
\<close>

theorem malformed_patch_aborts_run_counterexample:
  "processChangedFiles
     \<lparr>AI_REVIEW_COMMENT_PREFIX = ''AI review done up to commit: '',
      SUMMARY_SEPARATOR = ''\<newline>\<newline>### Summary'',
      parsePatchFn = parsePatch,
      extname = (\<lambda>p. ''.js'')\<rparr>
     \<lparr>api =
        \<lparr>listPRComments = Inr [\<lparr>body = Some ''AI review done up to commit: abc123''\<rparr>],
         getFilesBetweenCommits = (\<lambda>base head.
           if base = ''abc123''
           then Inr [\<lparr>filename = ''bad.js'', patch = Some ''@@ -x,y +1,2 @@\<newline>+a\<newline>+b''\<rparr>,
                     \<lparr>filename = ''good.js'', patch = Some ''@@ -1,1 +1,2 @@\<newline> a\<newline>+b''\<rparr>]
           else Inr [\<lparr>filename = ''bad.js'', patch = Some ''@@ -1,1 +1,2 @@\<newline> a\<newline>+b''\<rparr>,
                     \<lparr>filename = ''good.js'', patch = Some ''@@ -1,1 +1,2 @@\<newline> a\<newline>+b''\<rparr>])\<rparr>,
      baseCommit = ''base00'', headCommit = ''head99'',
      includeExtensions = '''', excludeExtensions = '''', includePaths = '''', excludePaths = ''''\<rparr>
   = Inl MalformedPatch"
  by code_simp

text \<open>
  C2, amended. For every input where parsing fails for one file that has a whole-PR
  counterpart and a non-empty incremental patch (the parser raises on the file's
  incremental patch or on the counterpart's patch), the exception is not caught:
  \<open>_excludeMergeOnlyChanges\<close> ends with an exception and returns no file list, so
  the run aborts.
\<close>

theorem excludeMergeOnlyChanges_propagates_parse_failure:
  assumes "getFilesBetweenCommits (api this) originalPRBase (headCommit this) = Inr wholePRFiles"
    and "incFile \<in> set changedFiles"
    and "wholePRFileMap wholePRFiles (filename incFile) = Some prFile"
    and "\<not> isFalsy (patch incFile)"
    and "parsePatchFn im (patch incFile) = Inl e \<or> parsePatchFn im (patch prFile) = Inl e"
  shows "\<exists>e'. excludeMergeOnlyChanges im this changedFiles originalPRBase = Inl e'"
proof -
  obtain e1 where "filterPatchHunks (parsePatchFn im) (patch incFile) (patch prFile) = Inl e1"
    using filterPatchHunks_raises [OF assms(4,5)] by blast
  then have "excludeFile (parsePatchFn im) (wholePRFileMap wholePRFiles) incFile = Inl e1"
    using assms(3) by (simp add: excludeFile_def)
  then obtain e2 where
    "mapRaising (excludeFile (parsePatchFn im) (wholePRFileMap wholePRFiles)) changedFiles = Inl e2"
    using mapRaising_raises [OF assms(2)] by blast
  then show ?thesis
    using assms(1) by (simp add: excludeMergeOnlyChanges_def)
qed

theorem excludeMergeOnlyChanges_propagates_parse_failure_witness:
  "\<exists>e'. excludeMergeOnlyChanges
     \<lparr>AI_REVIEW_COMMENT_PREFIX = ''AI review done up to commit: '',
      SUMMARY_SEPARATOR = ''\<newline>\<newline>### Summary'',
      parsePatchFn = parsePatch,
      extname = (\<lambda>p. ''.js'')\<rparr>
     \<lparr>api =
        \<lparr>listPRComments = Inr [],
         getFilesBetweenCommits = (\<lambda>base head.
           Inr [\<lparr>filename = ''bad.js'', patch = Some ''@@ -1,1 +1,2 @@\<newline> a\<newline>+b''\<rparr>,
                \<lparr>filename = ''good.js'', patch = Some ''@@ -1,1 +1,2 @@\<newline> a\<newline>+b''\<rparr>])\<rparr>,
      baseCommit = ''base00'', headCommit = ''head99'',
      includeExtensions = '''', excludeExtensions = '''', includePaths = '''', excludePaths = ''''\<rparr>
     [\<lparr>filename = ''good.js'', patch = Some ''@@ -1,1 +1,2 @@\<newline> a\<newline>+b''\<rparr>,
      \<lparr>filename = ''bad.js'', patch = Some ''@@ -x,y +1,2 @@\<newline>+a\<newline>+b''\<rparr>]
     ''base00'' = Inl e'"
proof (rule excludeMergeOnlyChanges_propagates_parse_failure
         [where incFile = "\<lparr>filename = ''bad.js'', patch = Some ''@@ -x,y +1,2 @@\<newline>+a\<newline>+b''\<rparr>"
            and prFile = "\<lparr>filename = ''bad.js'', patch = Some ''@@ -1,1 +1,2 @@\<newline> a\<newline>+b''\<rparr>"
            and e = MalformedPatch])
  show "getFilesBetweenCommits
          (api \<lparr>api =
             \<lparr>listPRComments = Inr [],
              getFilesBetweenCommits = (\<lambda>base head.
                Inr [\<lparr>filename = ''bad.js'', patch = Some ''@@ -1,1 +1,2 @@\<newline> a\<newline>+b''\<rparr>,
                     \<lparr>filename = ''good.js'', patch = Some ''@@ -1,1 +1,2 @@\<newline> a\<newline>+b''\<rparr>])\<rparr>,
             baseCommit = ''base00'', headCommit = ''head99'',
             includeExtensions = '''', excludeExtensions = '''', includePaths = '''', excludePaths = ''''\<rparr>)
          ''base00''
          (headCommit \<lparr>api =
             \<lparr>listPRComments = Inr [],
              getFilesBetweenCommits = (\<lambda>base head.
                Inr [\<lparr>filename = ''bad.js'', patch = Some ''@@ -1,1 +1,2 @@\<newline> a\<newline>+b''\<rparr>,
                     \<lparr>filename = ''good.js'', patch = Some ''@@ -1,1 +1,2 @@\<newline> a\<newline>+b''\<rparr>])\<rparr>,
             baseCommit = ''base00'', headCommit = ''head99'',
             includeExtensions = '''', excludeExtensions = '''', includePaths = '''', excludePaths = ''''\<rparr>)
        = Inr [\<lparr>filename = ''bad.js'', patch = Some ''@@ -1,1 +1,2 @@\<newline> a\<newline>+b''\<rparr>,
               \<lparr>filename = ''good.js'', patch = Some ''@@ -1,1 +1,2 @@\<newline> a\<newline>+b''\<rparr>]"
    by simp
  show "\<lparr>filename = ''bad.js'', patch = Some ''@@ -x,y +1,2 @@\<newline>+a\<newline>+b''\<rparr>
          \<in> set [\<lparr>filename = ''good.js'', patch = Some ''@@ -1,1 +1,2 @@\<newline> a\<newline>+b''\<rparr>,
                 \<lparr>filename = ''bad.js'', patch = Some ''@@ -x,y +1,2 @@\<newline>+a\<newline>+b''\<rparr>]"
    by simp
  show "wholePRFileMap
          [\<lparr>filename = ''bad.js'', patch = Some ''@@ -1,1 +1,2 @@\<newline> a\<newline>+b''\<rparr>,
           \<lparr>filename = ''good.js'', patch = Some ''@@ -1,1 +1,2 @@\<newline> a\<newline>+b''\<rparr>]
          (filename \<lparr>filename = ''bad.js'', patch = Some ''@@ -x,y +1,2 @@\<newline>+a\<newline>+b''\<rparr>)
        = Some \<lparr>filename = ''bad.js'', patch = Some ''@@ -1,1 +1,2 @@\<newline> a\<newline>+b''\<rparr>"
    by (simp add: wholePRFileMap_def)
  show "\<not> isFalsy (patch \<lparr>filename = ''bad.js'', patch = Some ''@@ -x,y +1,2 @@\<newline>+a\<newline>+b''\<rparr>)"
    by (simp add: isFalsy_def)
  have "parsePatch (Some ''@@ -x,y +1,2 @@\<newline>+a\<newline>+b'') = Inl MalformedPatch"
    by code_simp
  then show "parsePatchFn
          \<lparr>AI_REVIEW_COMMENT_PREFIX = ''AI review done up to commit: '',
           SUMMARY_SEPARATOR = ''\<newline>\<newline>### Summary'',
           parsePatchFn = parsePatch,
           extname = (\<lambda>p. ''.js'')\<rparr>
          (patch \<lparr>filename = ''bad.js'', patch = Some ''@@ -x,y +1,2 @@\<newline>+a\<newline>+b''\<rparr>) = Inl MalformedPatch
        \<or> parsePatchFn
          \<lparr>AI_REVIEW_COMMENT_PREFIX = ''AI review done up to commit: '',
           SUMMARY_SEPARATOR = ''\<newline>\<newline>### Summary'',
           parsePatchFn = parsePatch,
           extname = (\<lambda>p. ''.js'')\<rparr>
          (patch \<lparr>filename = ''bad.js'', patch = Some ''@@ -1,1 +1,2 @@\<newline> a\<newline>+b''\<rparr>) = Inl MalformedPatch"
    by simp
qed

text \<open>
  C8. For every run in which the resolved incremental base commit equals the pull
  request's original base commit (a full review), the result is the fetched change set
  with whole files removed by the extension and path filter and nothing else: every
  file that is kept is the fetched file itself, patch included, and neither the parser
  nor the reconciler is run.
\<close>

theorem processChangedFiles_full_review_pass_through:
  assumes "listPRComments (api this) = Inr comments"
    and "incrementalBaseCommit im this comments = Inr (baseCommit this)"
    and "getFilesBetweenCommits (api this) (baseCommit this) (headCommit this) = Inr changedFiles"
  shows "processChangedFiles im this =
           Inr (filter (shouldReview im (toArray (includeExtensions this)) (toArray (excludeExtensions this))
                          (toArray (includePaths this)) (toArray (excludePaths this)))
                  changedFiles)"
  using assms by (simp add: processChangedFiles_def filterChangedFiles_def)

theorem processChangedFiles_full_review_pass_through_witness:
  "processChangedFiles
     \<lparr>AI_REVIEW_COMMENT_PREFIX = ''AI review done up to commit: '',
      SUMMARY_SEPARATOR = ''\<newline>\<newline>### Summary'',
      parsePatchFn = parsePatch,
      extname = (\<lambda>p. ''.js'')\<rparr>
     \<lparr>api =
        \<lparr>listPRComments = Inr [\<lparr>body = Some ''Looks good to me''\<rparr>, \<lparr>body = None\<rparr>],
         getFilesBetweenCommits = (\<lambda>base head.
           Inr [\<lparr>filename = ''utils.js'', patch = Some ''@@ -x,y +1,2 @@\<newline>+a''\<rparr>,
                \<lparr>filename = ''logo.png'', patch = None\<rparr>])\<rparr>,
      baseCommit = ''base00'', headCommit = ''head99'',
      includeExtensions = '''', excludeExtensions = '''', includePaths = '''', excludePaths = ''''\<rparr>
   = Inr [\<lparr>filename = ''utils.js'', patch = Some ''@@ -x,y +1,2 @@\<newline>+a''\<rparr>,
          \<lparr>filename = ''logo.png'', patch = None\<rparr>]"
proof -
  have c: "listPRComments
       (api \<lparr>api =
          \<lparr>listPRComments = Inr [\<lparr>body = Some ''Looks good to me''\<rparr>, \<lparr>body = None\<rparr>],
           getFilesBetweenCommits = (\<lambda>base head.
             Inr [\<lparr>filename = ''utils.js'', patch = Some ''@@ -x,y +1,2 @@\<newline>+a''\<rparr>,
                  \<lparr>filename = ''logo.png'', patch = None\<rparr>])\<rparr>,
          baseCommit = ''base00'', headCommit = ''head99'',
          includeExtensions = '''', excludeExtensions = '''', includePaths = '''', excludePaths = ''''\<rparr>)
     = Inr [\<lparr>body = Some ''Looks good to me''\<rparr>, \<lparr>body = None\<rparr>]"
    by simp
  have b: "incrementalBaseCommit
       \<lparr>AI_REVIEW_COMMENT_PREFIX = ''AI review done up to commit: '',
        SUMMARY_SEPARATOR = ''\<newline>\<newline>### Summary'',
        parsePatchFn = parsePatch,
        extname = (\<lambda>p. ''.js'')\<rparr>
       \<lparr>api =
          \<lparr>listPRComments = Inr [\<lparr>body = Some ''Looks good to me''\<rparr>, \<lparr>body = None\<rparr>],
           getFilesBetweenCommits = (\<lambda>base head.
             Inr [\<lparr>filename = ''utils.js'', patch = Some ''@@ -x,y +1,2 @@\<newline>+a''\<rparr>,
                  \<lparr>filename = ''logo.png'', patch = None\<rparr>])\<rparr>,
          baseCommit = ''base00'', headCommit = ''head99'',
          includeExtensions = '''', excludeExtensions = '''', includePaths = '''', excludePaths = ''''\<rparr>
       [\<lparr>body = Some ''Looks good to me''\<rparr>, \<lparr>body = None\<rparr>]
     = Inr (baseCommit \<lparr>api =
          \<lparr>listPRComments = Inr [\<lparr>body = Some ''Looks good to me''\<rparr>, \<lparr>body = None\<rparr>],
           getFilesBetweenCommits = (\<lambda>base head.
             Inr [\<lparr>filename = ''utils.js'', patch = Some ''@@ -x,y +1,2 @@\<newline>+a''\<rparr>,
                  \<lparr>filename = ''logo.png'', patch = None\<rparr>])\<rparr>,
          baseCommit = ''base00'', headCommit = ''head99'',
          includeExtensions = '''', excludeExtensions = '''', includePaths = '''', excludePaths = ''''\<rparr>)"
    by (simp add: incrementalBaseCommit_def lastReviewComment_def)
  have f: "getFilesBetweenCommits
       (api \<lparr>api =
          \<lparr>listPRComments = Inr [\<lparr>body = Some ''Looks good to me''\<rparr>, \<lparr>body = None\<rparr>],
           getFilesBetweenCommits = (\<lambda>base head.
             Inr [\<lparr>filename = ''utils.js'', patch = Some ''@@ -x,y +1,2 @@\<newline>+a''\<rparr>,
                  \<lparr>filename = ''logo.png'', patch = None\<rparr>])\<rparr>,
          baseCommit = ''base00'', headCommit = ''head99'',
          includeExtensions = '''', excludeExtensions = '''', includePaths = '''', excludePaths = ''''\<rparr>)
       (baseCommit \<lparr>api =
          \<lparr>listPRComments = Inr [\<lparr>body = Some ''Looks good to me''\<rparr>, \<lparr>body = None\<rparr>],
           getFilesBetweenCommits = (\<lambda>base head.
             Inr [\<lparr>filename = ''utils.js'', patch = Some ''@@ -x,y +1,2 @@\<newline>+a''\<rparr>,
                  \<lparr>filename = ''logo.png'', patch = None\<rparr>])\<rparr>,
          baseCommit = ''base00'', headCommit = ''head99'',
          includeExtensions = '''', excludeExtensions = '''', includePaths = '''', excludePaths = ''''\<rparr>)
       (headCommit \<lparr>api =
          \<lparr>listPRComments = Inr [\<lparr>body = Some ''Looks good to me''\<rparr>, \<lparr>body = None\<rparr>],
           getFilesBetweenCommits = (\<lambda>base head.
             Inr [\<lparr>filename = ''utils.js'', patch = Some ''@@ -x,y +1,2 @@\<newline>+a''\<rparr>,
                  \<lparr>filename = ''logo.png'', patch = None\<rparr>])\<rparr>,
          baseCommit = ''base00'', headCommit = ''head99'',
          includeExtensions = '''', excludeExtensions = '''', includePaths = '''', excludePaths = ''''\<rparr>)
     = Inr [\<lparr>filename = ''utils.js'', patch = Some ''@@ -x,y +1,2 @@\<newline>+a''\<rparr>,
            \<lparr>filename = ''logo.png'', patch = None\<rparr>]"
    by simp
  show ?thesis
    using processChangedFiles_full_review_pass_through [OF c b f]
    by (simp add: shouldReview_def toArray_def)
qed

text \<open>
  C10. If the most recent review comment that starts with the review-marker prefix
  yields an empty commit token (the text before the separator, without the prefix, up
  to the first space, trimmed), the orchestrator keeps the pull request's original base
  commit and performs a full review: the diff is taken from the original base and goes
  to the extension and path filter only. The witness is a comment whose body is the
  prefix alone.
\<close>

theorem processChangedFiles_empty_token_full_review:
  assumes "listPRComments (api this) = Inr comments"
    and "lastReviewComment im comments = Some c"
    and "body c = Some b"
    and "newBaseCommit im b = Inr []"
  shows "incrementalBaseCommit im this comments = Inr (baseCommit this)
         \<and> processChangedFiles im this =
             (case getFilesBetweenCommits (api this) (baseCommit this) (headCommit this) of
                Inl e \<Rightarrow> Inl e
              | Inr changedFiles \<Rightarrow>
                  Inr (filterChangedFiles im changedFiles
                         (includeExtensions this) (excludeExtensions this)
                         (includePaths this) (excludePaths this)))"
  using assms by (simp add: processChangedFiles_def incrementalBaseCommit_def split: sum.splits)

theorem processChangedFiles_empty_token_full_review_witness:
  "processChangedFiles
     \<lparr>AI_REVIEW_COMMENT_PREFIX = ''AI review done up to commit: '',
      SUMMARY_SEPARATOR = ''\<newline>\<newline>### Summary'',
      parsePatchFn = parsePatch,
      extname = (\<lambda>p. ''.js'')\<rparr>
     \<lparr>api =
        \<lparr>listPRComments = Inr [\<lparr>body = Some ''AI review done up to commit: abc123''\<rparr>,
                                \<lparr>body = Some ''AI review done up to commit: ''\<rparr>],
         getFilesBetweenCommits = (\<lambda>base head.
           if base = ''base00''
           then Inr [\<lparr>filename = ''utils.js'', patch = Some ''@@ -1,1 +1,2 @@\<newline> a\<newline>+b''\<rparr>]
           else Inr [])\<rparr>,
      baseCommit = ''base00'', headCommit = ''head99'',
      includeExtensions = '''', excludeExtensions = '''', includePaths = '''', excludePaths = ''''\<rparr>
   = Inr [\<lparr>filename = ''utils.js'', patch = Some ''@@ -1,1 +1,2 @@\<newline> a\<newline>+b''\<rparr>]"
proof -
  have c: "listPRComments
       (api \<lparr>api =
          \<lparr>listPRComments = Inr [\<lparr>body = Some ''AI review done up to commit: abc123''\<rparr>,
                                  \<lparr>body = Some ''AI review done up to commit: ''\<rparr>],
           getFilesBetweenCommits = (\<lambda>base head.
             if base = ''base00''
             then Inr [\<lparr>filename = ''utils.js'', patch = Some ''@@ -1,1 +1,2 @@\<newline> a\<newline>+b''\<rparr>]
             else Inr [])\<rparr>,
          baseCommit = ''base00'', headCommit = ''head99'',
          includeExtensions = '''', excludeExtensions = '''', includePaths = '''', excludePaths = ''''\<rparr>)
     = Inr [\<lparr>body = Some ''AI review done up to commit: abc123''\<rparr>,
            \<lparr>body = Some ''AI review done up to commit: ''\<rparr>]"
    by simp
  have l: "lastReviewComment
       \<lparr>AI_REVIEW_COMMENT_PREFIX = ''AI review done up to commit: '',
        SUMMARY_SEPARATOR = ''\<newline>\<newline>### Summary'',
        parsePatchFn = parsePatch,
        extname = (\<lambda>p. ''.js'')\<rparr>
       [\<lparr>body = Some ''AI review done up to commit: abc123''\<rparr>,
        \<lparr>body = Some ''AI review done up to commit: ''\<rparr>]
     = Some \<lparr>body = Some ''AI review done up to commit: ''\<rparr>"
    by (simp add: lastReviewComment_def)
  have b: "body \<lparr>body = Some ''AI review done up to commit: ''\<rparr> = Some ''AI review done up to commit: ''"
    by simp
  have t: "newBaseCommit
       \<lparr>AI_REVIEW_COMMENT_PREFIX = ''AI review done up to commit: '',
        SUMMARY_SEPARATOR = ''\<newline>\<newline>### Summary'',
        parsePatchFn = parsePatch,
        extname = (\<lambda>p. ''.js'')\<rparr>
       ''AI review done up to commit: '' = Inr []"
    by code_simp
  show ?thesis
    using processChangedFiles_empty_token_full_review [OF c l b t]
    by (simp add: filterChangedFiles_def shouldReview_def toArray_def)
qed

section \<open>Round trip of parser and reconstructor\<close>

subsection \<open>Decimal numbers\<close>

lemma digitChar_table: "map digitChar [0..<10] = ''0123456789''"
  by code_simp

lemma digitChar_cases:
  assumes "n < 10"
  shows "digitChar n \<in> set ''0123456789''"
proof -
  from assms have "digitChar n \<in> set (map digitChar [0..<10])"
    by simp
  then show ?thesis
    by (simp only: digitChar_table)
qed

lemma isDigit_digitChar: "n < 10 \<Longrightarrow> isDigit (digitChar n)"
  by (simp only: isDigit_def digitChar_cases)

lemma digitVal_digitChar: "n < 10 \<Longrightarrow> digitVal (digitChar n) = n"
  by (simp add: digitVal_def digitChar_def)

lemma showNat_digits: "\<forall>c \<in> set (showNat n). isDigit c"
proof (induction n rule: showNat.induct)
  case (1 n)
  show ?case
  proof (cases "n < 10")
    case True
    then have "showNat n = [digitChar n]"
      by (subst showNat.simps) simp
    with True show ?thesis by (simp add: isDigit_digitChar)
  next
    case False
    then have "showNat n = showNat (n div 10) @ [digitChar (n mod 10)]"
      by (subst showNat.simps) simp
    with 1 False show ?thesis by (simp add: isDigit_digitChar)
  qed
qed

lemma showNat_nonempty: "showNat n \<noteq> []"
  by (subst showNat.simps) simp

lemma readNat_snoc: "readNat (ds @ [d]) = 10 * readNat ds + digitVal d"
  by (simp add: readNat_def)

lemma readNat_showNat: "readNat (showNat n) = n"
proof (induction n rule: showNat.induct)
  case (1 n)
  show ?case
  proof (cases "n < 10")
    case True
    then have "showNat n = [digitChar n]"
      by (subst showNat.simps) simp
    with True show ?thesis by (simp add: readNat_def digitVal_digitChar)
  next
    case False
    then have "showNat n = showNat (n div 10) @ [digitChar (n mod 10)]"
      by (subst showNat.simps) simp
    with 1 False show ?thesis by (simp add: readNat_snoc digitVal_digitChar)
  qed
qed

lemma readNumber_showInt:
  assumes "0 \<le> i" and "\<not> isDigit c"
  shows "readNumber (showInt i @ c # rest) = Some (i, c # rest)"
proof -
  have s: "showInt i = showNat (nat i)"
    using assms(1) by (simp add: showInt_def)
  have t: "takeWhile isDigit (showNat (nat i) @ c # rest) = showNat (nat i)"
    using showNat_digits assms(2) by (simp add: takeWhile_append2)
  have d: "dropWhile isDigit (showNat (nat i) @ c # rest) = c # rest"
    using showNat_digits assms(2) by (simp add: dropWhile_append2)
  show ?thesis
    using assms(1) by (simp add: readNumber_def s t d showNat_nonempty readNat_showNat Let_def)
qed

lemma stripPrefix_append: "stripPrefix p (p @ s) = Some s"
  by (simp add: stripPrefix_def)

lemma parseHeader_hunkHeader:
  assumes "0 \<le> oldStart h" "0 \<le> oldLines h" "0 \<le> newStart h" "0 \<le> newLines h"
  shows "parseHeader (hunkHeader h) = Some (oldStart h, oldLines h, newStart h, newLines h)"
proof -
  have c: "\<not> isDigit CHR '',''" and s: "\<not> isDigit CHR '' ''"
    by (simp_all add: isDigit_def)
  have 1: "stripPrefix ''@@ -'' (hunkHeader h) =
             Some (showInt (oldStart h) @ CHR '','' # showInt (oldLines h) @
               '' +'' @ showInt (newStart h) @ '','' @ showInt (newLines h) @ '' @@'')"
    unfolding hunkHeader_def by (simp add: stripPrefix_def)
  have 2: "stripPrefix '','' (CHR '','' # r) = Some r" for r
    by (simp add: stripPrefix_def)
  have 3: "stripPrefix '' +'' (CHR '' '' # CHR ''+'' # r) = Some r" for r
    by (simp add: stripPrefix_def)
  show ?thesis
    unfolding parseHeader_def
    using readNumber_showInt [OF assms(1) c] readNumber_showInt [OF assms(2) s]
      readNumber_showInt [OF assms(3) c] readNumber_showInt [OF assms(4) s]
    by (simp add: 1 2 3)
qed

subsection \<open>Lines\<close>

lemma join_append:
  "xs \<noteq> [] \<Longrightarrow> ys \<noteq> [] \<Longrightarrow> join sep (xs @ ys) = join sep xs @ sep @ join sep ys"
proof (induction sep xs rule: join.induct)
  case (1 sep)
  then show ?case by simp
next
  case (2 sep x)
  then show ?case by (cases ys) simp_all
next
  case (3 sep x y ys)
  then show ?case by simp
qed

lemma join_concat:
  "\<forall>xs \<in> set xss. xs \<noteq> [] \<Longrightarrow> join sep (map (join sep) xss) = join sep (concat xss)"
proof (induction xss)
  case Nil
  then show ?case by simp
next
  case (Cons xs xss)
  show ?case
  proof (cases xss)
    case Nil
    then show ?thesis by simp
  next
    case (Cons ys yss)
    with Cons.prems have ne: "xs \<noteq> []" "concat xss \<noteq> []"
      by auto
    have "join sep (map (join sep) (xs # xss)) = join sep xs @ sep @ join sep (map (join sep) xss)"
      using Cons by simp
    also have "\<dots> = join sep xs @ sep @ join sep (concat xss)"
      using Cons.IH Cons.prems by simp
    also have "\<dots> = join sep (xs @ concat xss)"
      using join_append [OF ne, of sep] by simp
    finally show ?thesis by simp
  qed
qed

lemma splitOn_line:
  "c \<notin> set l \<Longrightarrow> splitOn [c] l = [l]"
  by (induction l) auto

lemma splitOn_line_break:
  "c \<notin> set l \<Longrightarrow> splitOn [c] (l @ c # rest) = l # splitOn [c] rest"
  by (induction l) auto

lemma splitOn_join:
  "ls \<noteq> [] \<Longrightarrow> \<forall>l \<in> set ls. c \<notin> set l \<Longrightarrow> splitOn [c] (join [c] ls) = ls"
proof (induction "[c]" ls rule: join.induct)
  case 1
  then show ?case by simp
next
  case (2 x)
  then show ?case by (simp add: splitOn_line)
next
  case (3 x y ys)
  then show ?case by (simp add: splitOn_line_break)
qed

lemma splitOn_nonempty: "splitOn [c] s \<noteq> []"
  by (induction s) (auto split: list.splits)

lemma splitOn_no_separator: "l \<in> set (splitOn [c] s) \<Longrightarrow> c \<notin> set l"
proof (induction s arbitrary: l)
  case Nil
  then show ?case by simp
next
  case (Cons a s)
  then show ?case
    by (cases "splitOn [c] s") (auto split: if_splits)
qed

subsection \<open>Hunks\<close>

lemma readNumber_nonneg: "readNumber s = Some (n, r) \<Longrightarrow> 0 \<le> n"
  by (auto simp: readNumber_def Let_def split: if_splits)

lemma parseHeader_nonneg:
  assumes "parseHeader l = Some (a, b, c, d)"
  shows "0 \<le> a \<and> 0 \<le> b \<and> 0 \<le> c \<and> 0 \<le> d"
  using assms unfolding parseHeader_def
  by (auto split: bind_splits if_splits simp: readNumber_nonneg)

lemma parseHunks_parsed:
  "parseHunks ls = Inr hs \<Longrightarrow> h \<in> set hs \<Longrightarrow>
     0 \<le> oldStart h \<and> 0 \<le> oldLines h \<and> 0 \<le> newStart h \<and> 0 \<le> newLines h
     \<and> set (lines h) \<subseteq> set ls \<and> (\<forall>l \<in> set (lines h). isBodyLine l)"
proof (induction ls arbitrary: hs rule: parseHunks.induct)
  case 1
  then show ?case by simp
next
  case (2 l ls)
  from "2.prems"(1) obtain a b c d hs' where
    hd: "parseHeader l = Some (a, b, c, d)"
    and tl: "parseHunks (dropWhile isBodyLine ls) = Inr hs'"
    and hs: "hs = \<lparr>oldStart = a, oldLines = b, newStart = c, newLines = d,
                    lines = takeWhile isBodyLine ls\<rparr> # hs'"
    by (auto split: option.splits sum.splits)
  show ?case
  proof (cases "h \<in> set hs'")
    case True
    have "set (dropWhile isBodyLine ls) \<subseteq> set ls"
      by (auto dest: set_dropWhileD)
    with "2.IH" [OF hd refl refl refl tl True] show ?thesis
      by auto
  next
    case False
    with "2.prems"(2) hs
    have "h = \<lparr>oldStart = a, oldLines = b, newStart = c, newLines = d,
                lines = takeWhile isBodyLine ls\<rparr>"
      by simp
    with parseHeader_nonneg [OF hd] show ?thesis
      by (auto dest: set_takeWhileD)
  qed
qed

lemma hunkHeader_not_body: "\<not> isBodyLine (hunkHeader h)"
  by (simp add: hunkHeader_def isBodyLine_def)

lemma showInt_no_line_break:
  assumes "0 \<le> i"
  shows "CHR 0x0A \<notin> set (showInt i)"
proof -
  have "\<not> isDigit (CHR 0x0A)"
    by (simp add: isDigit_def)
  moreover have "showInt i = showNat (nat i)"
    using assms by (simp add: showInt_def)
  ultimately show ?thesis
    using showNat_digits [of "nat i"] by auto
qed

lemma hunkHeader_no_line_break:
  "0 \<le> oldStart h \<Longrightarrow> 0 \<le> oldLines h \<Longrightarrow> 0 \<le> newStart h \<Longrightarrow> 0 \<le> newLines h \<Longrightarrow>
     CHR 0x0A \<notin> set (hunkHeader h)"
  by (simp add: hunkHeader_def showInt_no_line_break)

lemma blocks_start_with_header:
  "takeWhile isBodyLine (concat (map (\<lambda>h. hunkHeader h # lines h) hs)) = []
   \<and> dropWhile isBodyLine (concat (map (\<lambda>h. hunkHeader h # lines h) hs))
       = concat (map (\<lambda>h. hunkHeader h # lines h) hs)"
  by (cases hs) (simp_all add: hunkHeader_not_body)

lemma parseHunks_blocks:
  "\<forall>h \<in> set hs. 0 \<le> oldStart h \<and> 0 \<le> oldLines h \<and> 0 \<le> newStart h \<and> 0 \<le> newLines h
       \<and> (\<forall>l \<in> set (lines h). isBodyLine l) \<Longrightarrow>
   parseHunks (concat (map (\<lambda>h. hunkHeader h # lines h) hs)) = Inr hs"
proof (induction hs)
  case Nil
  then show ?case by simp
next
  case (Cons h hs)
  then have body: "\<forall>l \<in> set (lines h). isBodyLine l"
    and hdr: "parseHeader (hunkHeader h) = Some (oldStart h, oldLines h, newStart h, newLines h)"
    by (simp_all add: parseHeader_hunkHeader)
  have t: "takeWhile isBodyLine (lines h @ concat (map (\<lambda>h. hunkHeader h # lines h) hs)) = lines h"
    using body blocks_start_with_header [of hs] by (simp add: takeWhile_append2)
  have d: "dropWhile isBodyLine (lines h @ concat (map (\<lambda>h. hunkHeader h # lines h) hs))
             = concat (map (\<lambda>h. hunkHeader h # lines h) hs)"
    using body blocks_start_with_header [of hs] by (simp add: dropWhile_append2)
  from Cons have "parseHunks (concat (map (\<lambda>h. hunkHeader h # lines h) hs)) = Inr hs"
    by simp
  then show ?case
    by (simp add: hdr t d)
qed

lemma reconstructPatch_lines:
  "reconstructPatch hs = join ''\<newline>'' (concat (map (\<lambda>h. hunkHeader h # lines h) hs))"
  unfolding reconstructPatch_def
  using join_concat [of "map (\<lambda>h. hunkHeader h # lines h) hs" "''\<newline>''"]
  by (simp add: comp_def)

lemma reconstructPatch_nonempty: "hs \<noteq> [] \<Longrightarrow> reconstructPatch hs \<noteq> []"
proof (cases hs)
  case Nil
  assume "hs \<noteq> []"
  with Nil show ?thesis by simp
next
  case (Cons h hs')
  then show ?thesis
    by (cases "lines h @ concat (map (\<lambda>h. hunkHeader h # lines h) hs')")
       (simp_all add: reconstructPatch_lines hunkHeader_def)
qed

text \<open>
  C7. For every well-formed single-file unified-diff text x (a text the parser accepts),
  parsing x, reconstructing a patch string from its hunks and parsing again yields the
  same hunk list as parsing x once. The parser is the one modelled from the spec.
\<close>

theorem parsePatch_reconstructPatch_round_trip:
  assumes "parsePatch x = Inr ps"
  shows "parsePatch (Some (reconstructPatch (firstHunks ps))) = Inr ps"
proof -
  have empty: "parsePatch (Some (reconstructPatch [])) = Inr [\<lparr>hunks = Some []\<rparr>]"
    by (simp add: parsePatch_def reconstructPatch_def)
  show ?thesis
  proof (cases "isFalsy x")
    case True
    with assms have "ps = [\<lparr>hunks = Some []\<rparr>]"
      by (auto simp: parsePatch_def isFalsy_def split: option.splits)
    with empty show ?thesis by (simp add: firstHunks_def)
  next
    case False
    then obtain t where x: "x = Some t" and t: "t \<noteq> []"
      by (auto simp: isFalsy_def split: option.splits)
    with assms obtain hs where
      hs: "parseHunks (splitJS ''\<newline>'' t) = Inr hs" and ps: "ps = [\<lparr>hunks = Some hs\<rparr>]"
      by (auto simp: parsePatch_def split: sum.splits)
    have fh: "firstHunks ps = hs"
      using ps by (simp add: firstHunks_def)
    show ?thesis
    proof (cases "hs = []")
      case True
      with empty fh ps show ?thesis by simp
    next
      case False
      let ?ls = "concat (map (\<lambda>h. hunkHeader h # lines h) hs)"
      have parsed: "\<forall>h \<in> set hs.
          0 \<le> oldStart h \<and> 0 \<le> oldLines h \<and> 0 \<le> newStart h \<and> 0 \<le> newLines h
          \<and> set (lines h) \<subseteq> set (splitJS ''\<newline>'' t) \<and> (\<forall>l \<in> set (lines h). isBodyLine l)"
        using parseHunks_parsed [OF hs] by blast
      have "\<forall>l \<in> set ?ls. CHR 0x0A \<notin> set l"
      proof
        fix l assume "l \<in> set ?ls"
        then obtain h where h: "h \<in> set hs" and l: "l = hunkHeader h \<or> l \<in> set (lines h)"
          by auto
        from l show "CHR 0x0A \<notin> set l"
        proof
          assume "l = hunkHeader h"
          with parsed h show ?thesis by (simp add: hunkHeader_no_line_break)
        next
          assume "l \<in> set (lines h)"
          with parsed h have "l \<in> set (splitOn ''\<newline>'' t)"
            by (auto simp: splitJS_def)
          then show ?thesis by (rule splitOn_no_separator)
        qed
      qed
      moreover have "?ls \<noteq> []"
        using False by (cases hs) simp_all
      ultimately have "splitJS ''\<newline>'' (reconstructPatch hs) = ?ls"
        by (simp add: splitJS_def reconstructPatch_lines splitOn_join)
      moreover have "parseHunks ?ls = Inr hs"
        using parsed by (intro parseHunks_blocks) blast
      ultimately show ?thesis
        using reconstructPatch_nonempty [OF False] fh ps
        by (simp add: parsePatch_def)
    qed
  qed
qed

theorem parsePatch_reconstructPatch_round_trip_witness:
  "parsePatch (Some ''@@ -1,2 +1,3 @@\<newline> a\<newline>+b\<newline> c\<newline>@@ -10,1 +11,0 @@\<newline>-z'') =
     Inr [\<lparr>hunks = Some
       [\<lparr>oldStart = 1, oldLines = 2, newStart = 1, newLines = 3, lines = ['' a'', ''+b'', '' c'']\<rparr>,
        \<lparr>oldStart = 10, oldLines = 1, newStart = 11, newLines = 0, lines = [''-z'']\<rparr>]\<rparr>]
   \<and> parsePatch (Some (reconstructPatch
       [\<lparr>oldStart = 1, oldLines = 2, newStart = 1, newLines = 3, lines = ['' a'', ''+b'', '' c'']\<rparr>,
        \<lparr>oldStart = 10, oldLines = 1, newStart = 11, newLines = 0, lines = [''-z'']\<rparr>])) =
     Inr [\<lparr>hunks = Some
       [\<lparr>oldStart = 1, oldLines = 2, newStart = 1, newLines = 3, lines = ['' a'', ''+b'', '' c'']\<rparr>,
        \<lparr>oldStart = 10, oldLines = 1, newStart = 11, newLines = 0, lines = [''-z'']\<rparr>]\<rparr>]"
proof -
  have p: "parsePatch (Some ''@@ -1,2 +1,3 @@\<newline> a\<newline>+b\<newline> c\<newline>@@ -10,1 +11,0 @@\<newline>-z'') =
     Inr [\<lparr>hunks = Some
       [\<lparr>oldStart = 1, oldLines = 2, newStart = 1, newLines = 3, lines = ['' a'', ''+b'', '' c'']\<rparr>,
        \<lparr>oldStart = 10, oldLines = 1, newStart = 11, newLines = 0, lines = [''-z'']\<rparr>]\<rparr>]"
    by code_simp
  show ?thesis
    using p parsePatch_reconstructPatch_round_trip [OF p] by (simp add: firstHunks_def)
qed

end
